theory Spec2Isabelle
  imports Main "HOL-Library.Sublist"
begin

section \<open>Python text\<close>

text \<open>
  A Python \<open>str\<close> is a sequence of Unicode code points, so a string is a list of
  code points here; \<open>ascii\<close> turns a literal of plain characters into one.
\<close>

type_synonym ustr = "nat list"

definition ascii :: "string \<Rightarrow> ustr" where
  "ascii s = map of_char s"

text \<open>
  \<open>str.isspace\<close> per character, the set that \<open>str.strip()\<close> removes: the 29
  code points of CPython's \<open>_PyUnicode_IsWhitespace\<close>.
\<close>

definition isspace :: "nat \<Rightarrow> bool" where
  "isspace c \<longleftrightarrow>
     (0x9 \<le> c \<and> c \<le> 0xD) \<or> (0x1C \<le> c \<and> c \<le> 0x20) \<or> c = 0x85 \<or> c = 0xA0 \<or>
     c = 0x1680 \<or> (0x2000 \<le> c \<and> c \<le> 0x200A) \<or> c = 0x2028 \<or> c = 0x2029 \<or>
     c = 0x202F \<or> c = 0x205F \<or> c = 0x3000"

definition py_strip :: "ustr \<Rightarrow> ustr" where
  "py_strip s = rev (dropWhile isspace (rev (dropWhile isspace s)))"

text \<open>
  \<open>str.lower()\<close>. The source lower-cases text only to compare it with ASCII words
  and to fold an e-mail address that matched an ASCII-only pattern. The mapping is
  CPython's on every ASCII character and on the two other code points whose lower case
  contains an ASCII character (U+0130 and U+212A); the remaining cased code points,
  whose lower case is again outside ASCII, are left as they are.
\<close>

definition lower_cp :: "nat \<Rightarrow> ustr" where
  "lower_cp c =
     (if 0x41 \<le> c \<and> c \<le> 0x5A then [c + 0x20]
      else if c = 0x130 then [0x69, 0x307]
      else if c = 0x212A then [0x6B]
      else [c])"

definition py_lower :: "ustr \<Rightarrow> ustr" where
  "py_lower s = concat (map lower_cp s)"

text \<open>
  \<open>\d\<close> in a \<open>str\<close> pattern of module \<open>re\<close> is a Unicode decimal digit (category Nd).
  The digits come in runs of ten; \<open>nd_starts\<close> lists the zero of each run (Unicode 14).
\<close>

definition nd_starts :: "nat list" where
  "nd_starts =
     [0x30, 0x660, 0x6F0, 0x7C0, 0x966, 0x9E6, 0xA66, 0xAE6, 0xB66, 0xBE6, 0xC66, 0xCE6,
      0xD66, 0xDE6, 0xE50, 0xED0, 0xF20, 0x1040, 0x1090, 0x17E0, 0x1810, 0x1946, 0x19D0,
      0x1A80, 0x1A90, 0x1B50, 0x1BB0, 0x1C40, 0x1C50, 0xA620, 0xA8D0, 0xA900, 0xA9D0,
      0xA9F0, 0xAA50, 0xABF0, 0xFF10, 0x104A0, 0x10D30, 0x11066, 0x110F0, 0x11136,
      0x111D0, 0x112F0, 0x11450, 0x114D0, 0x11650, 0x116C0, 0x11730, 0x118E0, 0x11950,
      0x11C50, 0x11D50, 0x11DA0, 0x16A60, 0x16AC0, 0x16B50, 0x1D7CE, 0x1D7D8, 0x1D7E2,
      0x1D7EC, 0x1D7F6, 0x1E140, 0x1E2F0, 0x1E950, 0x1FBF0]"

definition is_decimal :: "nat \<Rightarrow> bool" where
  "is_decimal c = list_ex (\<lambda>z. z \<le> c \<and> c < z + 10) nd_starts"

text \<open>
  \<open>s.split(sep)\<close>: the pieces between the occurrences of \<open>sep\<close>, found from the left
  without overlap. An empty separator raises \<open>ValueError\<close>; an index past the end of a
  list raises \<open>IndexError\<close>. \<open>sub in s\<close> is \<^const>\<open>sublist\<close>.
\<close>

datatype py_error = IndexError | ValueError | RecursionError

fun split_from :: "ustr \<Rightarrow> ustr \<Rightarrow> ustr list" where
  "split_from sep [] = [[]]"
| "split_from sep (c # cs) =
     (if sep \<noteq> [] \<and> prefix sep (c # cs)
      then [] # split_from sep (drop (length sep - 1) cs)
      else (case split_from sep cs of p # ps \<Rightarrow> (c # p) # ps | [] \<Rightarrow> []))"

definition py_split :: "ustr \<Rightarrow> ustr \<Rightarrow> py_error + ustr list" where
  "py_split s sep = (if sep = [] then Inl ValueError else Inr (split_from sep s))"

definition py_index :: "'a list \<Rightarrow> nat \<Rightarrow> py_error + 'a" where
  "py_index xs i = (if i < length xs then Inr (xs ! i) else Inl IndexError)"

definition and_then :: "'e + 'a \<Rightarrow> ('a \<Rightarrow> 'e + 'b) \<Rightarrow> 'e + 'b" where
  "and_then r f = (case r of Inl e \<Rightarrow> Inl e | Inr x \<Rightarrow> f x)"

section \<open>JSON values\<close>

text \<open>
  What \<open>json.loads\<close> returns: \<open>None\<close>, a \<open>bool\<close>, an \<open>int\<close>, a \<open>float\<close>, a \<open>str\<close>,
  a \<open>list\<close> or a \<open>dict\<close> with string keys (in insertion order). A float is kept
  as the decimal literal it was read from: \<open>Decimal s m e\<close> is the double nearest to
  \<open>m\<close> times ten to the power \<open>e\<close>, negated when \<open>s\<close> holds; the constants
  \<open>Infinity\<close>, \<open>-Infinity\<close> and \<open>NaN\<close> of the decoder are floats too.
\<close>

datatype pyfloat = Decimal bool nat int | Infinite bool | NaN

datatype json =
    JNull
  | JBool bool
  | JInt int
  | JFloat pyfloat
  | JStr ustr
  | JArr "json list"
  | JObj "(ustr \<times> json) list"

text \<open>
  Truth value of a value in \<open>if value:\<close>. A float is false when it is zero: the
  nearest double of a decimal is zero when the decimal is at most half the least
  positive double, which is two to the power -1074.
\<close>

definition float_nonzero :: "pyfloat \<Rightarrow> bool" where
  "float_nonzero x =
     (case x of
        Decimal s m e \<Rightarrow> m \<noteq> 0 \<and> (0 \<le> e \<or> 10 ^ nat (- e) < m * 2 ^ 1075)
      | Infinite s \<Rightarrow> True
      | NaN \<Rightarrow> True)"

fun truthy :: "json \<Rightarrow> bool" where
  "truthy JNull = False"
| "truthy (JBool b) = b"
| "truthy (JInt i) = (i \<noteq> 0)"
| "truthy (JFloat x) = float_nonzero x"
| "truthy (JStr s) = (s \<noteq> [])"
| "truthy (JArr xs) = (xs \<noteq> [])"
| "truthy (JObj kvs) = (kvs \<noteq> [])"

text \<open>
  \<open>str(value)\<close>: a string is itself, an integer its decimal digits, a boolean
  \<open>True\<close> or \<open>False\<close>, \<open>None\<close> the word \<open>None\<close>. CPython 3.11 refuses to convert
  an integer of more than \<open>sys.int_max_str_digits\<close> digits, 4300 unless it was changed,
  and raises \<open>ValueError\<close>; the sign does not count. The text of a float, a list or a
  dict is CPython's \<open>repr\<close>, which the source does not define: the parameter \<open>repr\<close>,
  which may raise as well (a list that holds such an integer, or is nested too deep).
\<close>

definition int_max_str_digits :: nat where
  "int_max_str_digits = 4300"

fun dec_digits :: "nat \<Rightarrow> ustr" where
  "dec_digits n = (if n < 10 then [0x30 + n] else dec_digits (n div 10) @ [0x30 + n mod 10])"

definition str_int :: "int \<Rightarrow> ustr" where
  "str_int i = (if i < 0 then 0x2D # dec_digits (nat (- i)) else dec_digits (nat i))"

fun py_str :: "(json \<Rightarrow> py_error + ustr) \<Rightarrow> json \<Rightarrow> py_error + ustr" where
  "py_str repr JNull = Inr (ascii ''None'')"
| "py_str repr (JBool b) = Inr (if b then ascii ''True'' else ascii ''False'')"
| "py_str repr (JInt i) =
     (if 10 ^ int_max_str_digits \<le> \<bar>i\<bar> then Inl ValueError else Inr (str_int i))"
| "py_str repr (JStr s) = Inr s"
| "py_str repr v = repr v"

section \<open>Regular expressions\<close>

text \<open>
  The fragment of \<open>re\<close> that the source's patterns use: the anchors \<open>^\<close> and \<open>$\<close>, a
  literal character, and a character class repeated at least \<open>n\<close> times (\<open>+\<close> is
  \<open>n = 1\<close>, \<open>{2,}\<close> is \<open>n = 2\<close>). A pattern is the list of its atoms. \<open>atom_ends a s i\<close>
  are the positions where a match of \<open>a\<close> that starts at \<open>i\<close> can end, longest first as
  the backtracking matcher tries them; \<open>$\<close> holds at the end of the text and before a
  newline that ends it.
\<close>

datatype atom = Bol | Eol | Lit nat | Rep "nat \<Rightarrow> bool" nat

fun atom_ends :: "atom \<Rightarrow> ustr \<Rightarrow> nat \<Rightarrow> nat list" where
  "atom_ends Bol s i = (if i = 0 then [i] else [])"
| "atom_ends Eol s i =
     (if i = length s \<or> (Suc i = length s \<and> s ! i = 0xA) then [i] else [])"
| "atom_ends (Lit c) s i = (if i < length s \<and> s ! i = c then [Suc i] else [])"
| "atom_ends (Rep cls n) s i =
     rev (map (\<lambda>k. i + k) [n ..< Suc (length (takeWhile cls (drop i s)))])"

fun match_from :: "atom list \<Rightarrow> ustr \<Rightarrow> nat \<Rightarrow> bool" where
  "match_from [] s i = True"
| "match_from (a # as) s i = list_ex (match_from as s) (atom_ends a s i)"

definition re_match :: "atom list \<Rightarrow> ustr \<Rightarrow> bool" where
  "re_match pattern s = match_from pattern s 0"

text \<open>\<open>re.sub(cls, '', s)\<close> for a pattern that is one character class.\<close>

definition re_sub_class :: "(nat \<Rightarrow> bool) \<Rightarrow> ustr \<Rightarrow> ustr" where
  "re_sub_class cls s = filter (\<lambda>c. \<not> cls c) s"

definition is_upper :: "nat \<Rightarrow> bool" where
  "is_upper c \<longleftrightarrow> 0x41 \<le> c \<and> c \<le> 0x5A"

definition is_lower :: "nat \<Rightarrow> bool" where
  "is_lower c \<longleftrightarrow> 0x61 \<le> c \<and> c \<le> 0x7A"

definition is_digit09 :: "nat \<Rightarrow> bool" where
  "is_digit09 c \<longleftrightarrow> 0x30 \<le> c \<and> c \<le> 0x39"

section \<open>OutputCleaner\<close>

subsection \<open>extract_json_from_response\<close>

text \<open>
  The returned dict is \<open>Success\<close> (keys success, data, error) or \<open>Failure\<close> (keys
  success, data, error, raw_response). \<open>json.loads\<close> belongs to the standard library:
  it is the parameter \<open>loads\<close>, which returns a value, raises \<open>JSONDecodeError\<close> with
  a text, or raises something else. The \<open>except\<close> clause names \<open>JSONDecodeError\<close> only,
  so any other exception leaves the function: \<open>Inl\<close> of the result.
\<close>

datatype loads_result = Returns json | Decode_error ustr | Raises py_error

datatype extract_result =
    Success (data: json)
  | Failure (error: ustr) (raw_response: ustr)

definition fence :: ustr where
  "fence = ascii ''```''"

definition fence_json :: ustr where
  "fence_json = ascii ''```json''"

definition error_prefix :: ustr where
  "error_prefix = ascii ''JSON '' @ [0xD30C, 0xC2F1, 0x20, 0xC624, 0xB958] @ ascii '': ''"

definition json_str_of :: "ustr \<Rightarrow> py_error + ustr" where
  "json_str_of response =
     (if sublist fence_json response then
        and_then (py_split response fence_json) (\<lambda>parts.
        and_then (py_index parts 1) (\<lambda>part.
        and_then (py_split part fence) (\<lambda>inner.
        and_then (py_index inner 0) (\<lambda>block. Inr (py_strip block)))))
      else if sublist fence response then
        and_then (py_split response fence) (\<lambda>parts.
        and_then (py_index parts 1) (\<lambda>part. Inr (py_strip part)))
      else Inr (py_strip response))"

definition extract_json_from_response ::
  "(ustr \<Rightarrow> loads_result) \<Rightarrow> ustr \<Rightarrow> py_error + extract_result" where
  "extract_json_from_response loads response =
     and_then (json_str_of response) (\<lambda>json_str.
       case loads json_str of
         Returns parsed_data \<Rightarrow> Inr (Success parsed_data)
       | Decode_error e \<Rightarrow> Inr (Failure (error_prefix @ e) response)
       | Raises x \<Rightarrow> Inl x)"

subsection \<open>Field cleaning\<close>

definition phone_class :: "nat \<Rightarrow> bool" where
  "phone_class c \<longleftrightarrow> \<not> (is_decimal c \<or> c = 0x2D \<or> c = 0x2B \<or> c = 0x28 \<or> c = 0x29)"

definition clean_phone_number :: "ustr \<Rightarrow> ustr option" where
  "clean_phone_number phone =
     (let cleaned = re_sub_class phone_class phone
      in if cleaned = [] then None else Some cleaned)"

definition email_local :: "nat \<Rightarrow> bool" where
  "email_local c \<longleftrightarrow>
     is_lower c \<or> is_upper c \<or> is_digit09 c \<or>
     c = 0x2E \<or> c = 0x5F \<or> c = 0x25 \<or> c = 0x2B \<or> c = 0x2D"

definition email_domain :: "nat \<Rightarrow> bool" where
  "email_domain c \<longleftrightarrow> is_lower c \<or> is_upper c \<or> is_digit09 c \<or> c = 0x2E \<or> c = 0x2D"

definition email_alpha :: "nat \<Rightarrow> bool" where
  "email_alpha c \<longleftrightarrow> is_lower c \<or> is_upper c"

definition email_pattern :: "atom list" where
  "email_pattern =
     [Bol, Rep email_local 1, Lit 0x40, Rep email_domain 1, Lit 0x2E, Rep email_alpha 2, Eol]"

definition clean_email :: "ustr \<Rightarrow> ustr option" where
  "clean_email email =
     (if re_match email_pattern (py_strip email) then Some (py_lower (py_strip email))
      else None)"

definition sentinels :: "ustr list" where
  "sentinels = [ascii ''null'', ascii ''none'', ascii ''n/a'', ascii ''-'']"

text \<open>
  \<open>_clean_field_value\<close>. The only step that can raise is \<open>str(value)\<close>; what it
  raises leaves the function.
\<close>

definition clean_field_value ::
  "(json \<Rightarrow> py_error + ustr) \<Rightarrow> json \<Rightarrow> ustr \<Rightarrow> py_error + ustr option" where
  "clean_field_value repr v field_type =
     (if v = JNull \<or> v = JStr [] then Inr None
      else
        and_then (py_str repr v) (\<lambda>text.
          let str_value = py_strip text
          in if str_value = [] \<or> py_lower str_value \<in> set sentinels then Inr None
             else if field_type = ascii ''phone'' then Inr (clean_phone_number str_value)
             else if field_type = ascii ''email'' then Inr (clean_email str_value)
             else Inr (Some str_value)))"

subsection \<open>clean_business_card_data\<close>

definition field_mapping :: "(ustr \<times> ustr list) list" where
  "field_mapping =
     [(ascii ''name'', [ascii ''name'', [0xC774, 0xB984], [0xC131, 0xBA85]]),
      (ascii ''phone'', [ascii ''phone'', [0xC804, 0xD654, 0xBC88, 0xD638],
         [0xD734, 0xB300, 0xD3F0], [0xC5F0, 0xB77D, 0xCC98]]),
      (ascii ''email'', [ascii ''email'', [0xC774, 0xBA54, 0xC77C], [0xBA54, 0xC77C]]),
      (ascii ''social_id'', [ascii ''social_id'', [0xCE74, 0xCE74, 0xC624, 0xD1A1],
         [0xCE74, 0xD1A1], ascii ''sns'']),
      (ascii ''position'', [ascii ''position'', [0xC9C1, 0xC704], [0xC9C1, 0xCC45],
         [0xC5ED, 0xD560]]),
      (ascii ''company'', [ascii ''company'', [0xD68C, 0xC0AC], [0xAE30, 0xAD00],
         [0xC5C5, 0xCCB4]]),
      (ascii ''address'', [ascii ''address'', [0xC8FC, 0xC18C], [0xC18C, 0xC7AC, 0xC9C0]]),
      (ascii ''fax'', [ascii ''fax'', [0xD329, 0xC2A4], [0xD329, 0xC2DC, 0xBC00, 0xB9AC]])]"

text \<open>
  The inner loop over \<open>possible_keys\<close>: \<open>value\<close> starts as \<open>None\<close> and becomes the
  value of the first key that is in \<open>raw_data\<close> with a value other than \<open>None\<close>.
\<close>

fun first_value :: "(ustr \<times> json) list \<Rightarrow> ustr list \<Rightarrow> json" where
  "first_value raw_data [] = JNull"
| "first_value raw_data (key # keys) =
     (case map_of raw_data key of
        Some v \<Rightarrow> if v \<noteq> JNull then v else first_value raw_data keys
      | None \<Rightarrow> first_value raw_data keys)"

definition of_optional :: "ustr option \<Rightarrow> json" where
  "of_optional r = (case r of None \<Rightarrow> JNull | Some s \<Rightarrow> JStr s)"

text \<open>
  One round of the loop over \<open>field_mapping.items()\<close> is \<open>clean_entry\<close>: the item that
  it stores in \<open>cleaned_data\<close>. \<open>clean_entries\<close> is the loop: it stops at the first round
  that raises.
\<close>

definition clean_entry ::
  "(json \<Rightarrow> py_error + ustr) \<Rightarrow> (ustr \<times> json) list \<Rightarrow> ustr \<times> ustr list
     \<Rightarrow> py_error + ustr \<times> json" where
  "clean_entry repr raw_data entry =
     (case entry of (standard_field, possible_keys) \<Rightarrow>
        let v = first_value raw_data possible_keys
        in if truthy v
           then and_then (clean_field_value repr v standard_field)
                  (\<lambda>cleaned. Inr (standard_field, of_optional cleaned))
           else Inr (standard_field, JNull))"

fun clean_entries ::
  "(json \<Rightarrow> py_error + ustr) \<Rightarrow> (ustr \<times> json) list \<Rightarrow> (ustr \<times> ustr list) list
     \<Rightarrow> py_error + (ustr \<times> json) list" where
  "clean_entries repr raw_data [] = Inr []"
| "clean_entries repr raw_data (entry # entries) =
     and_then (clean_entry repr raw_data entry) (\<lambda>item.
     and_then (clean_entries repr raw_data entries) (\<lambda>items. Inr (item # items)))"

definition clean_business_card_data ::
  "(json \<Rightarrow> py_error + ustr) \<Rightarrow> (ustr \<times> json) list \<Rightarrow> py_error + (ustr \<times> json) list" where
  "clean_business_card_data repr raw_data = clean_entries repr raw_data field_mapping"

subsection \<open>create_final_result\<close>

text \<open>
  \<open>d.get(k)\<close> is \<open>None\<close> for a key that \<open>d\<close> lacks. An argument left out is \<open>None\<close>
  here: \<open>card_id\<close> then takes its default 1, the two image arguments their default
  \<open>None\<close>.
\<close>

definition dict_get :: "(ustr \<times> json) list \<Rightarrow> ustr \<Rightarrow> json" where
  "dict_get d k = (case map_of d k of None \<Rightarrow> JNull | Some v \<Rightarrow> v)"

definition create_final_result ::
  "(ustr \<times> json) list \<Rightarrow> int option \<Rightarrow> ustr option \<Rightarrow> ustr option \<Rightarrow> (ustr \<times> json) list" where
  "create_final_result cleaned_data card_id image_path profile_image_url =
     [(ascii ''cardId'', JInt (case card_id of None \<Rightarrow> 1 | Some i \<Rightarrow> i)),
      (ascii ''name'', dict_get cleaned_data (ascii ''name'')),
      (ascii ''phone'', dict_get cleaned_data (ascii ''phone'')),
      (ascii ''email'', dict_get cleaned_data (ascii ''email'')),
      (ascii ''profile_image_url'', of_optional profile_image_url),
      (ascii ''card_img_url'', of_optional image_path),
      (ascii ''address'', dict_get cleaned_data (ascii ''address'')),
      (ascii ''fax'', dict_get cleaned_data (ascii ''fax'')),
      (ascii ''position'', dict_get cleaned_data (ascii ''position'')),
      (ascii ''company'', dict_get cleaned_data (ascii ''company'')),
      (ascii ''social_id'', dict_get cleaned_data (ascii ''social_id''))]"

text \<open>The keys of the final record, and the canonical fields among them.\<close>

definition final_keys :: "ustr list" where
  "final_keys =
     [ascii ''cardId'', ascii ''name'', ascii ''phone'', ascii ''email'',
      ascii ''profile_image_url'', ascii ''card_img_url'', ascii ''address'', ascii ''fax'',
      ascii ''position'', ascii ''company'', ascii ''social_id'']"

definition canonical_fields :: "ustr list" where
  "canonical_fields =
     [ascii ''name'', ascii ''phone'', ascii ''email'', ascii ''social_id'',
      ascii ''position'', ascii ''company'', ascii ''address'', ascii ''fax'']"

text \<open>
  \<open>case_variant w t\<close>: \<open>w\<close> is the lower-case word \<open>t\<close> with some of its letters
  in upper case. \<open>all_space ws\<close>: \<open>ws\<close> is whitespace only.
\<close>

definition case_variant :: "ustr \<Rightarrow> ustr \<Rightarrow> bool" where
  "case_variant w t = list_all2 (\<lambda>a b. a = b \<or> (is_upper a \<and> a + 0x20 = b)) w t"

definition all_space :: "ustr \<Rightarrow> bool" where
  "all_space ws = list_all isspace ws"

text \<open>
  A \<open>repr\<close> for statements about strings, integers, booleans and \<open>None\<close>, whose
  text does not depend on it.
\<close>

definition repr_unused :: "json \<Rightarrow> py_error + ustr" where
  "repr_unused v = Inr []"

text \<open>\<open>returns r\<close>: the call whose result is \<open>r\<close> did not raise.\<close>

definition returns :: "'e + 'a \<Rightarrow> bool" where
  "returns r = (case r of Inl e \<Rightarrow> False | Inr x \<Rightarrow> True)"

text \<open>The characters that a telephone number keeps: a decimal digit, - + ( and ).\<close>

definition phone_keep :: "nat \<Rightarrow> bool" where
  "phone_keep c \<longleftrightarrow> is_decimal c \<or> c = 0x2D \<or> c = 0x2B \<or> c = 0x28 \<or> c = 0x29"

text \<open>\<open>unset raw_data key\<close>: the key is missing from the dict or bound to \<open>None\<close>.\<close>

definition unset :: "(ustr \<times> json) list \<Rightarrow> ustr \<Rightarrow> bool" where
  "unset raw_data key \<longleftrightarrow> map_of raw_data key = None \<or> map_of raw_data key = Some JNull"





section \<open>Facts about splitting and stripping\<close>

lemma split_from_nonempty: "split_from sep s \<noteq> []"
  by (induction s) (auto split: list.splits)

lemma split_from_skip:
  "\<not> prefix sep (c # cs) \<Longrightarrow> split_from sep (c # cs) = (c # hd (split_from sep cs)) # tl (split_from sep cs)"
  using split_from_nonempty [of sep cs] by (cases "split_from sep cs") auto

lemma split_from_hit:
  "sep \<noteq> [] \<Longrightarrow> split_from sep (sep @ y) = [] # split_from sep y"
  by (cases sep) auto

lemma split_from_first:
  "sep \<noteq> [] \<Longrightarrow> \<forall>i<length x. \<not> prefix sep (drop i x @ sep @ y) \<Longrightarrow>
   split_from sep (x @ sep @ y) = x # split_from sep y"
proof (induction x)
  case Nil
  then show ?case by (simp add: split_from_hit)
next
  case (Cons a x)
  from Cons.prems(2) have "\<not> prefix sep (drop 0 (a # x) @ sep @ y)" by blast
  then have no: "\<not> prefix sep (a # (x @ sep @ y))" by simp
  have "\<forall>i<length x. \<not> prefix sep (drop i x @ sep @ y)"
  proof (intro allI impI)
    fix i assume "i < length x"
    then have "Suc i < length (a # x)" by simp
    with Cons.prems(2) have "\<not> prefix sep (drop (Suc i) (a # x) @ sep @ y)" by blast
    then show "\<not> prefix sep (drop i x @ sep @ y)" by simp
  qed
  with Cons have "split_from sep (x @ sep @ y) = x # split_from sep y" by blast
  with no show ?case by (simp add: split_from_skip)
qed

lemma split_from_absent:
  "\<not> sublist sep s \<Longrightarrow> split_from sep s = [s]"
proof (induction s)
  case Nil
  then show ?case by simp
next
  case (Cons c cs)
  then have "\<not> prefix sep (c # cs)" "\<not> sublist sep cs"
    by (auto simp: sublist_Cons_right)
  with Cons show ?case by (simp add: split_from_skip)
qed

lemma split_from_present:
  "sep \<noteq> [] \<Longrightarrow> sublist sep s \<Longrightarrow> 2 \<le> length (split_from sep s)"
proof (induction s)
  case Nil
  then show ?case by simp
next
  case (Cons c cs)
  show ?case
  proof (cases "prefix sep (c # cs)")
    case True
    with Cons.prems(1) show ?thesis
      using split_from_nonempty [of sep "drop (length sep - 1) cs"]
      by (cases "split_from sep (drop (length sep - 1) cs)") auto
  next
    case False
    with Cons.prems have "sublist sep cs" by (simp add: sublist_Cons_right)
    with Cons have "2 \<le> length (split_from sep cs)" by blast
    with False show ?thesis by (cases "split_from sep cs") auto
  qed
qed

lemma fence_simps: "fence = [96, 96, 96]" "fence_json = [96, 96, 96, 106, 115, 111, 110]"
  by (simp_all add: fence_def fence_json_def ascii_def)

lemma json_str_of_total: "\<exists>json_str. json_str_of response = Inr json_str"
proof -
  have a: "sublist fence_json response \<Longrightarrow> 1 < length (split_from fence_json response)"
    using split_from_present [of fence_json response] by (simp add: fence_simps)
  have b: "sublist fence response \<Longrightarrow> 1 < length (split_from fence response)"
    using split_from_present [of fence response] by (simp add: fence_simps)
  have c: "\<And>s. 0 < length (split_from fence s)"
    using split_from_nonempty by simp
  show ?thesis
    unfolding json_str_of_def and_then_def py_split_def py_index_def
    using a b c by (simp add: fence_simps)
qed

lemma py_strip_Nil: "py_strip [] = []"
  by (simp add: py_strip_def)


lemma py_strip_fixed:
  "s \<noteq> [] \<Longrightarrow> \<not> isspace (hd s) \<Longrightarrow> \<not> isspace (last s) \<Longrightarrow> py_strip s = s"
proof -
  assume s: "s \<noteq> []" and h: "\<not> isspace (hd s)" and l: "\<not> isspace (last s)"
  from s h have "dropWhile isspace s = s" by (cases s) auto
  moreover from s l have "dropWhile isspace (rev s) = rev s"
    by (cases "rev s") (auto simp: last_rev [symmetric] simp del: last_rev)
  ultimately show ?thesis by (simp add: py_strip_def)
qed


lemma py_strip_space_left:
  "\<forall>c\<in>set ws. isspace c \<Longrightarrow> py_strip (ws @ s) = py_strip s"
  by (simp add: py_strip_def dropWhile_append)


lemma py_strip_space_right:
  assumes "\<forall>c\<in>set ws. isspace c"
  shows "py_strip (s @ ws) = py_strip s"
proof -
  from assms have ws: "dropWhile isspace (rev ws) = []" by simp
  show ?thesis
  proof (cases "\<forall>c\<in>set s. isspace c")
    case True
    with assms have "dropWhile isspace (s @ ws) = []" "dropWhile isspace s = []" by simp_all
    then show ?thesis by (simp add: py_strip_def del: dropWhile_eq_Nil_conv)
  next
    case False
    then have "dropWhile isspace (s @ ws) = dropWhile isspace s @ ws"
      by (auto simp: dropWhile_append)
    with assms show ?thesis by (simp add: py_strip_def dropWhile_append)
  qed
qed

lemma py_strip_space: "\<forall>c\<in>set ws. isspace c \<Longrightarrow> py_strip ws = []"
proof -
  assume "\<forall>c\<in>set ws. isspace c"
  then have "dropWhile isspace ws = []" by simp
  then show ?thesis by (simp add: py_strip_def del: dropWhile_eq_Nil_conv)
qed

section \<open>The final record\<close>

lemma final_keys_fst:
  "map fst (create_final_result cleaned_data card_id image_path profile_image_url) = final_keys"
  by (simp add: create_final_result_def final_keys_def)

lemma final_keys_distinct: "distinct final_keys \<and> length final_keys = 11"
  by (simp add: final_keys_def ascii_def)

lemma final_field_value:
  "k \<in> set canonical_fields \<Longrightarrow>
   map_of (create_final_result cleaned_data card_id image_path profile_image_url) k =
     Some (dict_get cleaned_data k)"
  by (auto simp: canonical_fields_def create_final_result_def ascii_def)

text \<open>
  C9. For every cleaned record, card identifier and image references, the final record
  has exactly the eleven keys cardId, name, phone, email, profile_image_url, card_img_url,
  address, fax, position, company, social_id, in this order and each once; a canonical
  field holds what \<open>cleaned_data.get\<close> gives, which is \<open>None\<close> for a field that
  the cleaned record lacks; \<open>profile_image_url\<close> is \<open>None\<close> when it is not supplied.
\<close>

theorem create_final_result_shape:
  "map fst (create_final_result cleaned_data card_id image_path profile_image_url) = final_keys
   \<and> distinct final_keys \<and> length final_keys = 11
   \<and> (\<forall>k\<in>set canonical_fields.
         map_of (create_final_result cleaned_data card_id image_path profile_image_url) k =
           Some (dict_get cleaned_data k)
         \<and> (map_of cleaned_data k = None \<longrightarrow> dict_get cleaned_data k = JNull))
   \<and> map_of (create_final_result cleaned_data card_id image_path None)
         (ascii ''profile_image_url'') = Some JNull"
  using final_keys_fst [of cleaned_data card_id image_path profile_image_url]
    final_keys_distinct
    final_field_value [of _ cleaned_data card_id image_path profile_image_url]
  by (simp add: dict_get_def create_final_result_def of_optional_def ascii_def)

theorem create_final_result_shape_witness:
  "create_final_result [] (Some 7) (Some (ascii ''card.jpg'')) None =
     [(ascii ''cardId'', JInt 7), (ascii ''name'', JNull), (ascii ''phone'', JNull),
      (ascii ''email'', JNull), (ascii ''profile_image_url'', JNull),
      (ascii ''card_img_url'', JStr (ascii ''card.jpg'')), (ascii ''address'', JNull),
      (ascii ''fax'', JNull), (ascii ''position'', JNull), (ascii ''company'', JNull),
      (ascii ''social_id'', JNull)]
   \<and> ascii ''fax'' \<in> set canonical_fields
   \<and> map_of [] (ascii ''fax'') = (None :: json option)
   \<and> map_of (create_final_result [] (Some 7) (Some (ascii ''card.jpg'')) None) (ascii ''fax'')
       = Some JNull"
  using create_final_result_shape [of "[]" "Some 7" "Some (ascii ''card.jpg'')" None]
  by (simp add: create_final_result_def dict_get_def of_optional_def canonical_fields_def)

section \<open>Absent values\<close>

lemma sentinels_simps:
  "sentinels = [[110, 117, 108, 108], [110, 111, 110, 101], [110, 47, 97], [45]]"
  by (simp add: sentinels_def ascii_def)

lemma sentinel_char_set:
  "t \<in> set sentinels \<Longrightarrow> b \<in> set t \<Longrightarrow> b \<in> {110, 117, 108, 111, 101, 47, 97, 45}"
  unfolding sentinels_simps by auto

lemma lower_cp_plain: "b \<in> {110, 117, 108, 111, 101, 47, 97, 45} \<Longrightarrow> lower_cp b = [b]"
  unfolding lower_cp_def by (elim insertE emptyE) simp_all

lemma plain_not_space: "b \<in> {110, 117, 108, 111, 101, 47, 97, 45} \<Longrightarrow> \<not> isspace b"
  unfolding isspace_def by (elim insertE emptyE) simp_all

lemma upper_not_space: "is_upper a \<Longrightarrow> \<not> isspace a"
  unfolding is_upper_def isspace_def by arith

lemma lower_cp_upper: "is_upper a \<Longrightarrow> lower_cp a = [a + 0x20]"
  unfolding is_upper_def lower_cp_def by simp

lemma case_variant_Nil: "case_variant [] t \<longleftrightarrow> t = []"
  by (simp add: case_variant_def)

lemma case_variant_Cons:
  "case_variant (a # w) t \<longleftrightarrow>
     (\<exists>b t'. t = b # t' \<and> (a = b \<or> (is_upper a \<and> a + 0x20 = b)) \<and> case_variant w t')"
  by (simp add: case_variant_def list_all2_Cons1)

lemma case_variant_lower:
  "case_variant w t \<Longrightarrow> \<forall>b\<in>set t. lower_cp b = [b] \<Longrightarrow> py_lower w = t"
proof (induction w arbitrary: t)
  case Nil
  then show ?case by (simp add: case_variant_Nil py_lower_def)
next
  case (Cons a w)
  from Cons.prems(1) obtain b t' where t: "t = b # t'"
    and ab: "a = b \<or> (is_upper a \<and> a + 0x20 = b)" and rest: "case_variant w t'"
    by (auto simp: case_variant_Cons)
  from Cons.prems(2) t have b: "lower_cp b = [b]" and "\<forall>b\<in>set t'. lower_cp b = [b]" by simp_all
  with Cons.IH rest have "py_lower w = t'" by blast
  moreover from ab b have "lower_cp a = [b]" using lower_cp_upper by auto
  ultimately show ?case using t by (simp add: py_lower_def)
qed

lemma case_variant_nonspace:
  "case_variant w t \<Longrightarrow> \<forall>b\<in>set t. \<not> isspace b \<Longrightarrow> \<forall>a\<in>set w. \<not> isspace a"
proof (induction w arbitrary: t)
  case Nil
  then show ?case by simp
next
  case (Cons a w)
  from Cons.prems(1) obtain b t' where t: "t = b # t'"
    and ab: "a = b \<or> (is_upper a \<and> a + 0x20 = b)" and rest: "case_variant w t'"
    by (auto simp: case_variant_Cons)
  from Cons.prems(2) t have b: "\<not> isspace b" and "\<forall>b\<in>set t'. \<not> isspace b" by simp_all
  with Cons.IH rest have "\<forall>a\<in>set w. \<not> isspace a" by blast
  moreover from ab b have "\<not> isspace a" using upper_not_space by blast
  ultimately show ?case by simp
qed

lemma case_variant_nonempty: "case_variant w t \<Longrightarrow> t \<noteq> [] \<Longrightarrow> w \<noteq> []"
  by (auto simp: case_variant_Nil)

lemma sentinel_nonempty: "t \<in> set sentinels \<Longrightarrow> t \<noteq> []"
  unfolding sentinels_simps by auto

lemma py_strip_padded:
  assumes "all_space ws1" "all_space ws2"
  shows "py_strip (ws1 @ w @ ws2) = py_strip w"
proof -
  from assms have "\<forall>c\<in>set ws1. isspace c" "\<forall>c\<in>set ws2. isspace c"
    by (simp_all add: all_space_def list_all_iff)
  then show ?thesis
    using py_strip_space_left [of ws1 "w @ ws2"] py_strip_space_right [of ws2 w] by simp
qed

lemma clean_field_value_sentinel:
  assumes "all_space ws1" "all_space ws2" "t \<in> set sentinels" "case_variant w t"
  shows "clean_field_value repr (JStr (ws1 @ w @ ws2)) f = Inr None"
proof -
  from assms(3) have chars: "\<forall>b\<in>set t. lower_cp b = [b]" "\<forall>b\<in>set t. \<not> isspace b"
    using sentinel_char_set lower_cp_plain plain_not_space by blast+
  from assms(4) chars(1) have low: "py_lower w = t" by (rule case_variant_lower)
  from assms(4) chars(2) have ns: "\<forall>a\<in>set w. \<not> isspace a" by (rule case_variant_nonspace)
  from assms(3,4) have ne: "w \<noteq> []" using case_variant_nonempty sentinel_nonempty by blast
  with ns have "py_strip w = w" by (intro py_strip_fixed) simp_all
  with assms(1,2) have "py_strip (ws1 @ w @ ws2) = w" by (simp add: py_strip_padded)
  with low assms(3) show ?thesis by (simp add: clean_field_value_def and_then_def)
qed

lemma clean_field_value_blank:
  assumes "all_space ws"
  shows "clean_field_value repr (JStr ws) f = Inr None"
proof -
  from assms have "py_strip ws = []" by (simp add: py_strip_space all_space_def list_all_iff)
  then show ?thesis by (simp add: clean_field_value_def and_then_def)
qed

text \<open>
  C7. For every field, normalization of \<open>None\<close>, of the empty string, of a string of
  whitespace, and of one of the words null, none, n/a, - in any letter case with
  whitespace around it, is the absence marker \<open>None\<close>.
\<close>

theorem absent_values:
  "clean_field_value repr JNull f = Inr None
   \<and> clean_field_value repr (JStr []) f = Inr None
   \<and> (all_space ws \<longrightarrow> clean_field_value repr (JStr ws) f = Inr None)
   \<and> (all_space ws1 \<and> all_space ws2 \<and> t \<in> set sentinels \<and> case_variant w t
        \<longrightarrow> clean_field_value repr (JStr (ws1 @ w @ ws2)) f = Inr None)"
proof -
  have "clean_field_value repr JNull f = Inr None" "clean_field_value repr (JStr []) f = Inr None"
    by (simp_all add: clean_field_value_def)
  then show ?thesis
    using clean_field_value_sentinel [of ws1 ws2 t w repr f] clean_field_value_blank [of ws repr f]
    by blast
qed

theorem absent_values_witness:
  "all_space [0x20] \<and> all_space [0x20, 0x9] \<and> all_space [0xA]
   \<and> ascii ''n/a'' \<in> set sentinels \<and> case_variant (ascii ''N/A'') (ascii ''n/a'')
   \<and> clean_field_value repr_unused (JStr [0x20]) (ascii ''company'') = Inr None
   \<and> clean_field_value repr_unused (JStr ([0x20, 0x9] @ ascii ''N/A'' @ [0xA])) (ascii ''company'')
       = Inr None"
proof -
  have a: "all_space [0x20]" "all_space [0x20, 0x9]" "all_space [0xA]"
    by (simp_all add: all_space_def isspace_def)
  have b: "ascii ''n/a'' \<in> set sentinels" by (simp add: sentinels_def)
  have c: "case_variant (ascii ''N/A'') (ascii ''n/a'')"
    by (simp add: case_variant_def ascii_def is_upper_def)
  show ?thesis
    using a b c absent_values [of repr_unused "ascii ''company''" "[0x20]" "[0x20, 0x9]" "[0xA]"
      "ascii ''n/a''" "ascii ''N/A''"]
    by blast
qed

section \<open>Telephone numbers\<close>

lemma is_decimal_ascii: "c < 0x80 \<Longrightarrow> is_decimal c \<longleftrightarrow> 0x30 \<le> c \<and> c \<le> 0x39"
  unfolding is_decimal_def nd_starts_def by (simp add: list_ex_iff) arith

lemma clean_phone_number_filter:
  "clean_phone_number s = (if filter phone_keep s = [] then None else Some (filter phone_keep s))"
proof -
  have "(\<lambda>c. \<not> phone_class c) = phone_keep"
    by (rule ext) (simp add: phone_class_def phone_keep_def)
  then show ?thesis by (simp add: clean_phone_number_def re_sub_class_def Let_def)
qed

lemma tel_text: "ascii ''Tel: 010-1234-5678'' =
    [84, 101, 108, 58, 32, 48, 49, 48, 45, 49, 50, 51, 52, 45, 53, 54, 55, 56]"
  by (simp add: ascii_def)

lemma phone_keep_ascii:
  "c < 0x80 \<Longrightarrow> phone_keep c \<longleftrightarrow> (0x30 \<le> c \<and> c \<le> 0x39) \<or> c = 0x2D \<or> c = 0x2B \<or> c = 0x28 \<or> c = 0x29"
  by (simp add: phone_keep_def is_decimal_ascii)

lemma clean_phone_number_tel:
  "clean_phone_number (ascii ''Tel: 010-1234-5678'') = Some (ascii ''010-1234-5678'')"
  by (simp add: clean_phone_number_filter tel_text phone_keep_ascii ascii_def)

lemma field_names_differ: "ascii ''fax'' \<noteq> ascii ''phone''" "ascii ''fax'' \<noteq> ascii ''email''"
  by (simp_all add: ascii_def)

lemma clean_field_value_phone:
  "py_strip s \<noteq> [] \<Longrightarrow> py_lower (py_strip s) \<notin> set sentinels \<Longrightarrow>
   clean_field_value repr (JStr s) (ascii ''phone'') = Inr (clean_phone_number (py_strip s))"
  by (auto simp: clean_field_value_def and_then_def py_strip_Nil)

lemma clean_field_value_fax:
  "py_strip s \<noteq> [] \<Longrightarrow> py_lower (py_strip s) \<notin> set sentinels \<Longrightarrow>
   clean_field_value repr (JStr s) (ascii ''fax'') = Inr (Some (py_strip s))"
  using field_names_differ by (auto simp: clean_field_value_def and_then_def py_strip_Nil)

text \<open>
  C8, as amended. Cleaning a telephone number removes exactly the characters that are not
  decimal digits, +, -, ( or ), keeps the others in order, and gives \<open>None\<close> when
  nothing remains; \<open>Tel: 010-1234-5678\<close> becomes \<open>010-1234-5678\<close>. A value of the
  field phone that is not blank and not one of the absent words is cleaned so after
  trimming; a value of the field fax is only trimmed.
\<close>

theorem phone_number_filter:
  "clean_phone_number s =
     (if filter phone_keep s = [] then None else Some (filter phone_keep s))
   \<and> clean_phone_number (ascii ''Tel: 010-1234-5678'') = Some (ascii ''010-1234-5678'')
   \<and> (py_strip s \<noteq> [] \<and> py_lower (py_strip s) \<notin> set sentinels \<longrightarrow>
        clean_field_value repr (JStr s) (ascii ''phone'') = Inr (clean_phone_number (py_strip s))
        \<and> clean_field_value repr (JStr s) (ascii ''fax'') = Inr (Some (py_strip s)))"
  using clean_phone_number_filter [of s] clean_phone_number_tel
    clean_field_value_phone [of s repr] clean_field_value_fax [of s repr]
  by blast

lemma fax_text: "ascii ''Fax: 02-123'' = [70, 97, 120, 58, 32, 48, 50, 45, 49, 50, 51]"
  by (simp add: ascii_def)

lemma fax_text_strip: "py_strip (ascii ''Fax: 02-123'') = ascii ''Fax: 02-123''"
  by (rule py_strip_fixed) (simp_all add: fax_text isspace_def)

lemma fax_text_lower: "py_lower (ascii ''Fax: 02-123'') \<notin> set sentinels"
  by (simp add: fax_text py_lower_def lower_cp_def sentinels_simps)

theorem phone_number_filter_witness:
  "py_strip (ascii ''Fax: 02-123'') \<noteq> []
   \<and> py_lower (py_strip (ascii ''Fax: 02-123'')) \<notin> set sentinels
   \<and> clean_field_value repr_unused (JStr (ascii ''Fax: 02-123'')) (ascii ''phone'')
       = Inr (Some (ascii ''02-123''))
   \<and> clean_field_value repr_unused (JStr (ascii ''Fax: 02-123'')) (ascii ''fax'')
       = Inr (Some (ascii ''Fax: 02-123''))"
proof -
  have a: "py_strip (ascii ''Fax: 02-123'') \<noteq> []"
    by (simp add: fax_text_strip) (simp add: ascii_def)
  have b: "py_lower (py_strip (ascii ''Fax: 02-123'')) \<notin> set sentinels"
    by (simp add: fax_text_strip fax_text_lower)
  have c: "filter phone_keep (ascii ''Fax: 02-123'') = ascii ''02-123''"
    by (simp add: fax_text phone_keep_ascii) (simp add: ascii_def)
  have d: "ascii ''02-123'' \<noteq> []" by (simp add: ascii_def)
  show ?thesis
    using a b c d phone_number_filter [of "ascii ''Fax: 02-123''" repr_unused]
      phone_number_filter [of "py_strip (ascii ''Fax: 02-123'')" repr_unused]
    by (simp add: fax_text_strip)
qed

text \<open>
  The claim C8 as stated fails for the field fax: \<open>Fax: 02-123\<close> keeps its letters,
  colon and space.
\<close>

theorem fax_not_filtered_counterexample:
  "clean_field_value repr_unused (JStr (ascii ''Fax: 02-123'')) (ascii ''fax'')
     = Inr (Some (ascii ''Fax: 02-123''))
   \<and> filter phone_keep (ascii ''Fax: 02-123'') = ascii ''02-123''
   \<and> ascii ''Fax: 02-123'' \<noteq> ascii ''02-123''"
proof -
  have "py_strip (ascii ''Fax: 02-123'') \<noteq> []"
    by (simp add: fax_text_strip) (simp add: ascii_def)
  then have "clean_field_value repr_unused (JStr (ascii ''Fax: 02-123'')) (ascii ''fax'')
     = Inr (Some (ascii ''Fax: 02-123''))"
    using clean_field_value_fax [of "ascii ''Fax: 02-123''" repr_unused] fax_text_lower
    by (simp add: fax_text_strip)
  moreover have "filter phone_keep (ascii ''Fax: 02-123'') = ascii ''02-123''"
    by (simp add: fax_text phone_keep_ascii) (simp add: ascii_def)
  moreover have "ascii ''Fax: 02-123'' \<noteq> ascii ''02-123''" by (simp add: ascii_def)
  ultimately show ?thesis by blast
qed

section \<open>Reconciliation\<close>

lemma field_mapping_keys:
  "map fst field_mapping = canonical_fields"
  by (simp add: field_mapping_def canonical_fields_def)

lemma canonical_fields_distinct: "distinct canonical_fields"
  by (simp add: canonical_fields_def ascii_def)

lemma returns_iff: "returns r \<longleftrightarrow> (\<exists>x. r = Inr x)"
  by (cases r) (simp_all add: returns_def)

lemma clean_entry_Inr:
  "clean_entry repr raw_data (f, ks) = Inr item \<longleftrightarrow>
     (if truthy (first_value raw_data ks)
      then \<exists>cleaned. clean_field_value repr (first_value raw_data ks) f = Inr cleaned
             \<and> item = (f, of_optional cleaned)
      else item = (f, JNull))"
  by (auto simp: clean_entry_def Let_def and_then_def split: sum.splits)

lemma clean_entry_Inl:
  "clean_entry repr raw_data (f, ks) = Inl x \<longleftrightarrow>
     truthy (first_value raw_data ks) \<and> clean_field_value repr (first_value raw_data ks) f = Inl x"
  by (auto simp: clean_entry_def Let_def and_then_def split: sum.splits)

lemma clean_entry_fst: "clean_entry repr raw_data e = Inr item \<Longrightarrow> fst item = fst e"
  by (cases e) (auto simp: clean_entry_Inr split: if_splits)

lemma clean_entries_Inr:
  "clean_entries repr raw_data es = Inr items \<longleftrightarrow>
     list_all2 (\<lambda>e item. clean_entry repr raw_data e = Inr item) es items"
proof (induction es arbitrary: items)
  case Nil
  then show ?case by auto
next
  case (Cons e es)
  show ?case
  proof (cases "clean_entry repr raw_data e")
    case (Inl x)
    then show ?thesis by (auto simp: and_then_def list_all2_Cons1)
  next
    case (Inr item)
    note e = this
    show ?thesis
    proof (cases "clean_entries repr raw_data es")
      case (Inl x)
      with e show ?thesis by (auto simp: and_then_def list_all2_Cons1 Cons.IH [symmetric])
    next
      case (Inr rest)
      with e show ?thesis by (auto simp: and_then_def list_all2_Cons1 Cons.IH [symmetric])
    qed
  qed
qed

lemma clean_entries_Inl:
  "clean_entries repr raw_data es = Inl x \<Longrightarrow> \<exists>e\<in>set es. clean_entry repr raw_data e = Inl x"
  by (induction es) (auto simp: and_then_def split: sum.splits)

lemma clean_entries_returns:
  "\<forall>e\<in>set es. returns (clean_entry repr raw_data e) \<Longrightarrow>
   returns (clean_entries repr raw_data es)"
  by (induction es) (auto simp: and_then_def returns_iff)

lemma clean_entries_keys:
  "list_all2 (\<lambda>e item. clean_entry repr raw_data e = Inr item) es items \<Longrightarrow>
   map fst items = map fst es"
  by (induction rule: list_all2_induct) (simp_all add: clean_entry_fst)

lemma clean_keys:
  "clean_business_card_data repr raw_data = Inr cleaned \<Longrightarrow> map fst cleaned = canonical_fields"
  using clean_entries_keys [of repr raw_data field_mapping cleaned]
  by (simp add: clean_business_card_data_def clean_entries_Inr field_mapping_keys)

lemma clean_entries_member:
  "list_all2 (\<lambda>e item. clean_entry repr raw_data e = Inr item) es items \<Longrightarrow> e \<in> set es \<Longrightarrow>
   \<exists>item\<in>set items. clean_entry repr raw_data e = Inr item"
  by (induction rule: list_all2_induct) auto

lemma clean_lookup:
  assumes "(f, ks) \<in> set field_mapping" "clean_business_card_data repr raw_data = Inr cleaned"
  shows "\<exists>v. clean_entry repr raw_data (f, ks) = Inr (f, v) \<and> map_of cleaned f = Some v"
proof -
  from assms(2) have all: "list_all2 (\<lambda>e item. clean_entry repr raw_data e = Inr item)
      field_mapping cleaned"
    by (simp add: clean_business_card_data_def clean_entries_Inr)
  from clean_entries_member [OF all assms(1)] obtain item
    where item: "item \<in> set cleaned" "clean_entry repr raw_data (f, ks) = Inr item" by blast
  from item(2) have "fst item = f" using clean_entry_fst by fastforce
  then have i: "item = (f, snd item)" by (simp add: prod_eq_iff)
  have "distinct (map fst cleaned)"
    using clean_keys [OF assms(2)] canonical_fields_distinct by simp
  moreover from item(1) i have "(f, snd item) \<in> set cleaned" by simp
  ultimately have "map_of cleaned f = Some (snd item)" by (rule map_of_is_SomeI)
  with item(2) i show ?thesis by metis
qed

lemma first_value_skip:
  "\<forall>k\<in>set before. unset raw_data k \<Longrightarrow>
   first_value raw_data (before @ keys) = first_value raw_data keys"
  by (induction before) (auto simp: unset_def)

lemma first_value_hit:
  "map_of raw_data k = Some v \<Longrightarrow> v \<noteq> JNull \<Longrightarrow> first_value raw_data (k # after) = v"
  by simp

lemma first_value_none:
  "\<forall>k\<in>set keys. unset raw_data k \<Longrightarrow> first_value raw_data keys = JNull"
  using first_value_skip [of keys raw_data "[]"] by simp

lemma first_value_first:
  assumes "\<forall>k'\<in>set before. unset raw_data k'" "map_of raw_data k = Some v" "v \<noteq> JNull"
  shows "first_value raw_data (before @ k # after) = v"
  using assms first_value_skip [of before raw_data "k # after"] by simp

lemma first_value_member:
  "first_value raw_data keys = JNull \<or> first_value raw_data keys \<in> snd ` set raw_data"
proof (induction keys)
  case Nil
  then show ?case by simp
next
  case (Cons k keys)
  show ?case
  proof (cases "map_of raw_data k")
    case None
    with Cons show ?thesis by simp
  next
    case (Some v)
    then have "(k, v) \<in> set raw_data" by (rule map_of_SomeD)
    then have "v \<in> snd ` set raw_data" by force
    with Some Cons show ?thesis by auto
  qed
qed

lemma clean_lookup_value:
  assumes "(f, ks) \<in> set field_mapping" "clean_business_card_data repr raw_data = Inr cleaned"
  shows "if truthy (first_value raw_data ks)
         then \<exists>c. clean_field_value repr (first_value raw_data ks) f = Inr c
                \<and> map_of cleaned f = Some (of_optional c)
         else map_of cleaned f = Some JNull"
  using clean_lookup [OF assms] by (auto simp: clean_entry_Inr split: if_splits)

text \<open>The cleaner raises only what \<open>str\<close> raises on a value of the candidate map.\<close>

lemma clean_field_value_Inl:
  "clean_field_value repr v f = Inl x \<longleftrightarrow> v \<noteq> JNull \<and> v \<noteq> JStr [] \<and> py_str repr v = Inl x"
  by (auto simp: clean_field_value_def and_then_def Let_def split: sum.splits)

lemma clean_raises:
  assumes "clean_business_card_data repr raw_data = Inl x"
  shows "list_ex (\<lambda>item. py_str repr (snd item) = Inl x) raw_data"
proof -
  from assms obtain f ks where "clean_entry repr raw_data (f, ks) = Inl x"
    using clean_entries_Inl [of repr raw_data field_mapping x]
    by (auto simp: clean_business_card_data_def)
  then have t: "truthy (first_value raw_data ks)"
    and "clean_field_value repr (first_value raw_data ks) f = Inl x"
    by (simp_all add: clean_entry_Inl)
  then have s: "py_str repr (first_value raw_data ks) = Inl x"
    by (simp add: clean_field_value_Inl)
  from t have "first_value raw_data ks \<noteq> JNull" by auto
  with first_value_member [of raw_data ks] have "first_value raw_data ks \<in> snd ` set raw_data"
    by simp
  then obtain item where item: "item \<in> set raw_data" and eq: "first_value raw_data ks = snd item"
    by auto
  from s have "py_str repr (snd item) = Inl x" unfolding eq .
  with item have "\<exists>item\<in>set raw_data. py_str repr (snd item) = Inl x" by (rule rev_bexI)
  then show ?thesis by (simp add: list_ex_iff)
qed

lemma clean_returns:
  assumes "list_all (\<lambda>item. returns (py_str repr (snd item))) raw_data"
  shows "returns (clean_business_card_data repr raw_data)"
proof (cases "clean_business_card_data repr raw_data")
  case (Inl x)
  then have "list_ex (\<lambda>item. py_str repr (snd item) = Inl x) raw_data" by (rule clean_raises)
  with assms show ?thesis by (auto simp: list_ex_iff list_all_iff returns_def)
next
  case (Inr cleaned)
  then show ?thesis by (simp add: returns_def)
qed

lemma phone_entry:
  "(ascii ''phone'', [ascii ''phone'', [0xC804, 0xD654, 0xBC88, 0xD638],
      [0xD734, 0xB300, 0xD3F0], [0xC5F0, 0xB77D, 0xCC98]]) \<in> set field_mapping"
  by (simp add: field_mapping_def)

lemma name_entry:
  "(ascii ''name'', [ascii ''name'', [0xC774, 0xB984], [0xC131, 0xBA85]]) \<in> set field_mapping"
  by (simp add: field_mapping_def)

lemma phone_text: "ascii ''010-999'' = [48, 49, 48, 45, 57, 57, 57]"
  by (simp add: ascii_def)

lemma phone_text_clean:
  "clean_field_value repr (JStr (ascii ''010-999'')) (ascii ''phone'')
     = Inr (Some (ascii ''010-999''))"
proof -
  have s: "py_strip (ascii ''010-999'') = ascii ''010-999''"
    by (rule py_strip_fixed) (simp_all add: phone_text isspace_def)
  have n: "ascii ''010-999'' \<noteq> []" by (simp add: phone_text)
  have l: "py_lower (ascii ''010-999'') \<notin> set sentinels"
    by (simp add: phone_text py_lower_def lower_cp_def sentinels_simps)
  have f: "filter phone_keep (ascii ''010-999'') = ascii ''010-999''"
    by (simp add: phone_text phone_keep_ascii)
  from s n l have "clean_field_value repr (JStr (ascii ''010-999'')) (ascii ''phone'')
      = Inr (clean_phone_number (ascii ''010-999''))"
    using clean_field_value_phone [of "ascii ''010-999''" repr] by simp
  with f n show ?thesis by (simp add: clean_phone_number_filter)
qed

lemma phone_example:
  "\<exists>cleaned. clean_business_card_data repr
      [([0xC804, 0xD654, 0xBC88, 0xD638], JStr (ascii ''02-000'')),
       (ascii ''phone'', JStr (ascii ''010-999''))] = Inr cleaned
     \<and> map_of cleaned (ascii ''phone'') = Some (JStr (ascii ''010-999''))"
proof -
  let ?raw = "[([0xC804, 0xD654, 0xBC88, 0xD638], JStr (ascii ''02-000'')),
       (ascii ''phone'', JStr (ascii ''010-999''))]"
  have "list_all (\<lambda>item. returns (py_str repr (snd item))) ?raw" by (simp add: returns_def)
  then have "returns (clean_business_card_data repr ?raw)" by (rule clean_returns)
  then obtain cleaned where c: "clean_business_card_data repr ?raw = Inr cleaned"
    by (auto simp: returns_iff)
  have m: "map_of ?raw (ascii ''phone'') = Some (JStr (ascii ''010-999''))"
    by (simp add: ascii_def)
  then have v: "first_value ?raw [ascii ''phone'', [0xC804, 0xD654, 0xBC88, 0xD638],
      [0xD734, 0xB300, 0xD3F0], [0xC5F0, 0xB77D, 0xCC98]] = JStr (ascii ''010-999'')"
    by (rule first_value_hit) simp
  have t: "truthy (JStr (ascii ''010-999''))" by (simp add: phone_text)
  have "map_of cleaned (ascii ''phone'') = Some (JStr (ascii ''010-999''))"
    using clean_lookup_value [OF phone_entry c] v t phone_text_clean [of repr]
    by (simp add: of_optional_def)
  with c show ?thesis by blast
qed

lemma phone_text2: "ascii ''02-000'' = [48, 50, 45, 48, 48, 48]"
  by (simp add: ascii_def)

lemma phone_text2_clean:
  "clean_field_value repr (JStr (ascii ''02-000'')) (ascii ''phone'')
     = Inr (Some (ascii ''02-000''))"
proof -
  have s: "py_strip (ascii ''02-000'') = ascii ''02-000''"
    by (rule py_strip_fixed) (simp_all add: phone_text2 isspace_def)
  have n: "ascii ''02-000'' \<noteq> []" by (simp add: phone_text2)
  have l: "py_lower (ascii ''02-000'') \<notin> set sentinels"
    by (simp add: phone_text2 py_lower_def lower_cp_def sentinels_simps)
  have f: "filter phone_keep (ascii ''02-000'') = ascii ''02-000''"
    by (simp add: phone_text2 phone_keep_ascii)
  from s n l have "clean_field_value repr (JStr (ascii ''02-000'')) (ascii ''phone'')
      = Inr (clean_phone_number (ascii ''02-000''))"
    using clean_field_value_phone [of "ascii ''02-000''" repr] by simp
  with f n show ?thesis by (simp add: clean_phone_number_filter)
qed

text \<open>
  C5. The raw value of a field is the value of the first alias, in the order of the alias
  list, that the candidate map binds to something other than \<open>None\<close>; the aliases after
  it are not consulted, and when every alias is missing or \<open>None\<close> the raw value is
  \<open>None\<close>. In the record that the cleaner returns, the value of each canonical field
  is computed from this raw value. For the candidate with the Korean key for a telephone
  number bound to \<open>02-000\<close> and \<open>phone\<close> bound to \<open>010-999\<close>, the cleaner returns a
  record whose field phone is \<open>010-999\<close>.
\<close>

theorem alias_priority:
  "((\<forall>k'\<in>set before. unset raw_data k') \<and> map_of raw_data k = Some v \<and> v \<noteq> JNull
      \<longrightarrow> first_value raw_data (before @ k # after) = v)
   \<and> ((\<forall>k\<in>set keys. unset raw_data k) \<longrightarrow> first_value raw_data keys = JNull)
   \<and> ((f, ks) \<in> set field_mapping \<and> clean_business_card_data repr raw_data = Inr cleaned \<longrightarrow>
        (if truthy (first_value raw_data ks)
         then \<exists>c. clean_field_value repr (first_value raw_data ks) f = Inr c
                \<and> map_of cleaned f = Some (of_optional c)
         else map_of cleaned f = Some JNull))
   \<and> (\<exists>result. clean_business_card_data repr
          [([0xC804, 0xD654, 0xBC88, 0xD638], JStr (ascii ''02-000'')),
           (ascii ''phone'', JStr (ascii ''010-999''))] = Inr result
        \<and> map_of result (ascii ''phone'') = Some (JStr (ascii ''010-999'')))"
  using first_value_first [of before raw_data k v after] first_value_none [of keys raw_data]
    clean_lookup_value [of f ks repr raw_data cleaned] phone_example [of repr]
  by blast

theorem alias_priority_witness:
  "unset [([0xC804, 0xD654, 0xBC88, 0xD638], JStr (ascii ''02-000'')), (ascii ''phone'', JNull)]
      (ascii ''phone'')
   \<and> first_value [([0xC804, 0xD654, 0xBC88, 0xD638], JStr (ascii ''02-000'')), (ascii ''phone'', JNull)]
        ([ascii ''phone''] @ [0xC804, 0xD654, 0xBC88, 0xD638]
           # [[0xD734, 0xB300, 0xD3F0], [0xC5F0, 0xB77D, 0xCC98]])
      = JStr (ascii ''02-000'')
   \<and> unset [([0xC804, 0xD654, 0xBC88, 0xD638], JStr (ascii ''02-000'')), (ascii ''phone'', JNull)]
      (ascii ''fax'')
   \<and> first_value [([0xC804, 0xD654, 0xBC88, 0xD638], JStr (ascii ''02-000'')), (ascii ''phone'', JNull)]
        [ascii ''fax''] = JNull
   \<and> (\<exists>result. clean_business_card_data repr_unused
        [([0xC804, 0xD654, 0xBC88, 0xD638], JStr (ascii ''02-000'')), (ascii ''phone'', JNull)]
          = Inr result
        \<and> map_of result (ascii ''phone'') = Some (JStr (ascii ''02-000'')))"
proof -
  let ?raw = "[([0xC804, 0xD654, 0xBC88, 0xD638], JStr (ascii ''02-000'')), (ascii ''phone'', JNull)]"
  let ?ks = "[ascii ''phone'', [0xC804, 0xD654, 0xBC88, 0xD638],
      [0xD734, 0xB300, 0xD3F0], [0xC5F0, 0xB77D, 0xCC98]]"
  have a: "\<forall>k'\<in>set [ascii ''phone'']. unset ?raw k'" by (simp add: unset_def ascii_def)
  have b: "map_of ?raw [0xC804, 0xD654, 0xBC88, 0xD638] = Some (JStr (ascii ''02-000''))" by simp
  have c: "JStr (ascii ''02-000'') \<noteq> JNull" by simp
  have d: "\<forall>k\<in>set [ascii ''fax'']. unset ?raw k" by (simp add: unset_def ascii_def)
  have e: "truthy (JStr (ascii ''02-000''))" by (simp add: ascii_def)
  have f: "[ascii ''phone''] @ [0xC804, 0xD654, 0xBC88, 0xD638]
           # [[0xD734, 0xB300, 0xD3F0], [0xC5F0, 0xB77D, 0xCC98]] = ?ks" by simp
  have "list_all (\<lambda>item. returns (py_str repr_unused (snd item))) ?raw" by (simp add: returns_def)
  then have "returns (clean_business_card_data repr_unused ?raw)" by (rule clean_returns)
  then obtain result where r: "clean_business_card_data repr_unused ?raw = Inr result"
    by (auto simp: returns_iff)
  note t = alias_priority [of "[ascii ''phone'']" ?raw "[0xC804, 0xD654, 0xBC88, 0xD638]"
      "JStr (ascii ''02-000'')" "[[0xD734, 0xB300, 0xD3F0], [0xC5F0, 0xB77D, 0xCC98]]"
      "[ascii ''fax'']" "ascii ''phone''" ?ks repr_unused result]
  from t a b c have v: "first_value ?raw ([ascii ''phone''] @ [0xC804, 0xD654, 0xBC88, 0xD638]
           # [[0xD734, 0xB300, 0xD3F0], [0xC5F0, 0xB77D, 0xCC98]]) = JStr (ascii ''02-000'')"
    by blast
  from t d have n: "first_value ?raw [ascii ''fax''] = JNull" by blast
  from t phone_entry r have "if truthy (first_value ?raw ?ks)
         then \<exists>c. clean_field_value repr_unused (first_value ?raw ?ks) (ascii ''phone'') = Inr c
                \<and> map_of result (ascii ''phone'') = Some (of_optional c)
         else map_of result (ascii ''phone'') = Some JNull"
    by blast
  with v e have "\<exists>c. clean_field_value repr_unused (JStr (ascii ''02-000'')) (ascii ''phone'') = Inr c
                \<and> map_of result (ascii ''phone'') = Some (of_optional c)"
    unfolding f by simp
  then have m: "map_of result (ascii ''phone'') = Some (JStr (ascii ''02-000''))"
    by (auto simp: phone_text2_clean of_optional_def)
  from a v d n r m show ?thesis by simp
qed

section \<open>Falsy values\<close>

lemma str_int_zero: "str_int 0 = ascii ''0''"
  by (simp add: str_int_def ascii_def)

lemma limit_positive: "\<not> (10::int) ^ int_max_str_digits \<le> 0"
  by (simp add: not_le)

lemma py_str_zero: "py_str repr (JInt 0) = Inr (ascii ''0'')"
  by (simp add: str_int_zero limit_positive)

lemma zero_text_strip: "py_strip (ascii ''0'') = ascii ''0''"
  by (rule py_strip_fixed) (simp_all add: ascii_def isspace_def)

lemma zero_text_lower: "py_lower (ascii ''0'') \<notin> set sentinels"
  by (simp add: ascii_def py_lower_def lower_cp_def sentinels_simps)

lemma clean_field_value_zero:
  assumes "f \<noteq> ascii ''email''"
  shows "clean_field_value repr (JInt 0) f = Inr (Some (ascii ''0''))"
proof -
  have n: "ascii ''0'' \<noteq> []" by (simp add: ascii_def)
  have p: "clean_phone_number (ascii ''0'') = Some (ascii ''0'')"
    by (simp add: clean_phone_number_filter ascii_def phone_keep_ascii)
  show ?thesis
    using assms n p zero_text_lower
    by (simp add: clean_field_value_def py_str_zero and_then_def zero_text_strip Let_def
        del: py_str.simps)
qed

lemma falsy_cleaned:
  assumes "(f, ks) \<in> set field_mapping" "\<not> truthy (first_value raw_data ks)"
    "clean_business_card_data repr raw_data = Inr cleaned"
  shows "map_of cleaned f = Some JNull"
  using clean_lookup_value [OF assms(1,3)] assms(2) by simp

text \<open>
  C4, as amended. A value other than \<open>None\<close> under the first alias is selected as
  the raw value of the field, falsy or not. A raw value that is falsy (0, \<open>False\<close>, an
  empty string, list or dict) is not normalized: in the record that the cleaner returns
  the field is \<open>None\<close>. Normalization on its own does coerce 0 to the text \<open>0\<close>,
  for every field but email.
\<close>

theorem falsy_value_absent:
  "(map_of raw_data k = Some v \<and> v \<noteq> JNull \<longrightarrow> first_value raw_data (k # after) = v)
   \<and> ((f, ks) \<in> set field_mapping \<and> \<not> truthy (first_value raw_data ks)
        \<and> clean_business_card_data repr raw_data = Inr cleaned \<longrightarrow>
        map_of cleaned f = Some JNull)
   \<and> (f \<noteq> ascii ''email'' \<longrightarrow> clean_field_value repr (JInt 0) f = Inr (Some (ascii ''0'')))"
  using first_value_hit [of raw_data k v after] falsy_cleaned [of f ks raw_data repr cleaned]
    clean_field_value_zero [of f repr]
  by blast

theorem falsy_value_absent_witness:
  "map_of [(ascii ''name'', JInt 0), ([0xC774, 0xB984], JStr (ascii ''Kim''))] (ascii ''name'')
     = Some (JInt 0)
   \<and> first_value [(ascii ''name'', JInt 0), ([0xC774, 0xB984], JStr (ascii ''Kim''))]
        (ascii ''name'' # [[0xC774, 0xB984], [0xC131, 0xBA85]]) = JInt 0
   \<and> (ascii ''name'', [ascii ''name'', [0xC774, 0xB984], [0xC131, 0xBA85]]) \<in> set field_mapping
   \<and> (\<exists>result. clean_business_card_data repr_unused
        [(ascii ''name'', JInt 0), ([0xC774, 0xB984], JStr (ascii ''Kim''))] = Inr result
        \<and> map_of result (ascii ''name'') = Some JNull)
   \<and> clean_field_value repr_unused (JInt 0) (ascii ''name'') = Inr (Some (ascii ''0''))"
proof -
  let ?raw = "[(ascii ''name'', JInt 0), ([0xC774, 0xB984], JStr (ascii ''Kim''))]"
  let ?ks = "[ascii ''name'', [0xC774, 0xB984], [0xC131, 0xBA85]]"
  have a: "map_of ?raw (ascii ''name'') = Some (JInt 0)" by simp
  have b: "JInt 0 \<noteq> JNull" by simp
  have c: "ascii ''name'' \<noteq> ascii ''email''" by (simp add: ascii_def)
  have "list_all (\<lambda>item. returns (py_str repr_unused (snd item))) ?raw"
    by (simp add: returns_def py_str_zero del: py_str.simps) simp
  then have "returns (clean_business_card_data repr_unused ?raw)" by (rule clean_returns)
  then obtain result where r: "clean_business_card_data repr_unused ?raw = Inr result"
    by (auto simp: returns_iff)
  note t = falsy_value_absent [of ?raw "ascii ''name''" "JInt 0" "[[0xC774, 0xB984], [0xC131, 0xBA85]]"
      "ascii ''name''" ?ks repr_unused result]
  from t a b have v: "first_value ?raw ?ks = JInt 0" by blast
  then have "\<not> truthy (first_value ?raw ?ks)" by simp
  with t name_entry r have m: "map_of result (ascii ''name'') = Some JNull" by blast
  from t c have z: "clean_field_value repr_unused (JInt 0) (ascii ''name'') = Inr (Some (ascii ''0''))"
    by blast
  from a v name_entry r m z show ?thesis by simp
qed

text \<open>
  The claim C4 as stated fails: with \<open>name\<close> bound to the number 0 the cleaned name is
  \<open>None\<close>, not the text \<open>0\<close>.
\<close>

theorem zero_dropped_counterexample:
  "clean_business_card_data repr_unused [(ascii ''name'', JInt 0)] =
     Inr [(ascii ''name'', JNull), (ascii ''phone'', JNull), (ascii ''email'', JNull),
          (ascii ''social_id'', JNull), (ascii ''position'', JNull), (ascii ''company'', JNull),
          (ascii ''address'', JNull), (ascii ''fax'', JNull)]"
  by (simp add: clean_business_card_data_def field_mapping_def clean_entry_def and_then_def
      ascii_def)

section \<open>E-mail addresses\<close>










lemma atom_ends_ge: "j \<in> set (atom_ends a s i) \<Longrightarrow> i \<le> j"
  by (cases a) (auto split: if_splits)






















section \<open>The cleaned record\<close>

















end
